theory Spec2Isabelle
  imports
    Main
    "HOL-Library.Word"
    "HOL-Library.Sublist"
    "HOL-Library.AList"
    "HOL-Library.List_Lexorder"
    "HOL-Library.Char_ord"
begin

section \<open>Values shared by the backends and the compactor\<close>

text \<open>
  A Go \<open>error\<close> result is an \<open>error option\<close>: \<open>None\<close> is \<open>nil\<close>.  Each
  constructor below is one error site of the sources; a wrapping \<open>fmt.Errorf("...: %w")\<close>
  keeps the path it formats and the error it wraps.
\<close>

datatype error =
    EOF
  | ENOENT string
  | ENOTDIR string
  | EISDIR string
  | ENOTEMPTY string
  | EPERM string
  | EINVAL string
  | InvalidPath
  | Canceled
  | ContentsDoNotMatch
  | LocalizeFailed string error
  | MkdirFailed string error
  | ImmutableMismatch string error
  | OpenForDeleteFailed string error
  | ParseTilePathFailed string error
  | NotAPartialTile string
  | OverrideImmutableFailed string error
  | ParsePartialPathFailed string
  | ParsePartialSizeFailed string
  | StatFullTileFailed string error
  | FullTileIsDirectory string
  | FullTileIsEmpty string
  | MalformedTilePath string
  | S3UploadFailed string error
  | S3Error string
  | ReadLogFailed error
  | DecodeLogFailed error
  | ReadCheckpointFailed error
  | VerifyCheckpointFailed error
  | OriginMismatch string string
  | BadSignature
  | PanicNegativeShift
  | PanicDivideByZero

type_synonym byte = "8 word"

text \<open>
  The filesystem under a backend directory or an \<open>os.Root\<close>: slash-separated paths
  mapped to what is stored there.  A file has its bytes and the OS-level immutable flag, a
  directory the size its \<open>FileInfo\<close> reports.  The first binding of a path is the live one.
\<close>

datatype node = File (content: "byte list") (immutable: bool) | Dir (dsize: int)

type_synonym filesystem = "(string \<times> node) list"

text \<open>
  An open \<open>*os.File\<close>: the bytes not yet read, or a directory (which \<open>os.Open\<close>
  opens, and \<open>Read\<close> then refuses).
\<close>

datatype handle = FileHandle "byte list" | DirHandle string

text \<open>
  What the operating system is asked to do, in order: every filesystem call of the
  sources appends itself here, so that "no filesystem access" is a statement about the
  state.
\<close>

datatype fsop =
    OpMkdirAll string
  | OpOpen string
  | OpWriteFile string
  | OpReadFile string
  | OpRemove string
  | OpReadDir string
  | OpStat string
  | OpInfo string
  | OpSetImmutable string
  | OpUnsetImmutable string

record world =
  files :: filesystem
  trace :: "fsop list"

definition access :: "fsop \<Rightarrow> 'a world_scheme \<Rightarrow> 'a world_scheme" where
  "access op w = w\<lparr>trace := trace w @ [op]\<rparr>"

fun IsDir :: "node \<Rightarrow> bool" where
  "IsDir (Dir s) = True"
| "IsDir (File c i) = False"

fun Size :: "node \<Rightarrow> int" where
  "Size (Dir s) = s"
| "Size (File c i) = int (length c)"

text \<open>
  \<open>filepath.Join(a, b)\<close> is \<open>Clean(a + "/" + b)\<close>.  It is modelled where these sources
  call it: \<open>a\<close> a clean, non-empty path other than \<open>.\<close> and \<open>/\<close> (a backend directory in
  that form, \<open>tile\<close>, or a path built by \<open>Join\<close> itself) and \<open>b\<close> either a localized
  key or the name of a directory entry.  \<open>Clean\<close> then drops a final \<open>.\<close> element, which only
  the key \<open>.\<close> brings, and changes nothing else.  A directory path that is empty, \<open>.\<close>, \<open>/\<close>
  or not clean (a trailing slash, say) is outside this model.
\<close>

definition Join :: "string \<Rightarrow> string \<Rightarrow> string" where
  "Join a b = (if b = ''.'' then a else a @ ''/'' @ b)"

text \<open>\<open>os.Open\<close>: fails on a missing path; opens files and directories alike.\<close>

definition Open :: "'a world_scheme \<Rightarrow> string \<Rightarrow> (error + handle) \<times> 'a world_scheme" where
  "Open w name =
     (case map_of (files w) name of
        None \<Rightarrow> Inl (ENOENT name)
      | Some (File c i) \<Rightarrow> Inr (FileHandle c)
      | Some (Dir s) \<Rightarrow> Inr (DirHandle name),
      access (OpOpen name) w)"

text \<open>
  Modelled from the spec: the package \<open>internal/immutable\<close> is not among the sources.
  \<open>Set\<close> puts the OS-level immutable attribute on an open file, \<open>Unset\<close> clears it;
  neither reports an error to its caller.
\<close>

definition setFlag :: "bool \<Rightarrow> string \<Rightarrow> filesystem \<Rightarrow> filesystem" where
  "setFlag b name fs =
     (case map_of fs name of
        Some (File c i) \<Rightarrow> AList.update name (File c b) fs
      | _ \<Rightarrow> fs)"

definition immutable_Set :: "string \<Rightarrow> 'a world_scheme \<Rightarrow> 'a world_scheme" where
  "immutable_Set name w = access (OpSetImmutable name) (w\<lparr>files := setFlag True name (files w)\<rparr>)"

definition immutable_Unset :: "string \<Rightarrow> 'a world_scheme \<Rightarrow> 'a world_scheme" where
  "immutable_Unset name w = access (OpUnsetImmutable name) (w\<lparr>files := setFlag False name (files w)\<rparr>)"

section \<open>The local backend (internal/ctlog/local.go)\<close>

subsection \<open>Reading an open file\<close>

text \<open>
  \<open>f.Read(b)\<close> with \<open>len(b) = k\<close>, as \<open>os.File.Read\<close> behaves: a zero-length
  buffer returns \<open>0, nil\<close> at once, before the descriptor is touched, whatever was opened;
  reading a directory fails; at the end of the file the result is \<open>0, io.EOF\<close>; otherwise
  at least one and at most \<open>k\<close> of the remaining bytes are returned.  How many is the
  operating system's choice: \<open>sched\<close>, any function of the number of bytes left, clamped
  into that range.
\<close>

definition Read :: "(nat \<Rightarrow> nat) \<Rightarrow> handle \<Rightarrow> nat \<Rightarrow> byte list \<times> error option \<times> handle" where
  "Read sched f k =
     (if k = 0 then ([], None, f)
      else (case f of
              DirHandle p \<Rightarrow> ([], Some (EISDIR p), f)
            | FileHandle rest \<Rightarrow>
                if rest = [] then ([], Some EOF, f)
                else (let n = max 1 (min (sched (length rest)) (min k (length rest)))
                      in (take n rest, None, FileHandle (drop n rest)))))"

text \<open>
  The loop of \<open>compareFile\<close>; \<open>blen\<close> is \<open>len(b)\<close>, fixed before the loop.  The loop
  has no bound of its own, so not returning is the value \<open>None\<close>.
\<close>

partial_function (option) compareLoop ::
  "(nat \<Rightarrow> nat) \<Rightarrow> nat \<Rightarrow> handle \<Rightarrow> byte list \<Rightarrow> error option option" where
  "compareLoop sched blen f data =
     (let r = Read sched f blen; b = fst r; err = fst (snd r); f' = snd (snd r); n = length b in
      if err \<noteq> None \<and> err \<noteq> Some EOF then Some err
      else if n > length data \<or> b \<noteq> take n data then Some (Some ContentsDoNotMatch)
      else if err = Some EOF then
        (if drop n data = [] then Some None else Some (Some ContentsDoNotMatch))
      else compareLoop sched blen f' (drop n data))"

declare compareLoop.simps [code]

definition compareFile :: "(nat \<Rightarrow> nat) \<Rightarrow> handle \<Rightarrow> byte list \<Rightarrow> error option option" where
  "compareFile sched f data = compareLoop sched (min (length data) 16384) f data"

subsection \<open>Localizing a key\<close>

text \<open>
  \<open>filepath.Localize\<close> on a Unix system: the key must be a valid \<open>io/fs\<close> path
  (\<open>fs.ValidPath\<close>: valid UTF-8 and, unless it is the single element \<open>.\<close>, made of
  slash-separated elements none of which is empty, \<open>.\<close> or \<open>..\<close>) and must hold no
  NUL byte.  The localized name is then the key itself.
\<close>

definition cont :: "nat \<Rightarrow> bool" where
  "cont b = (128 \<le> b \<and> b \<le> 191)"

fun utf8Valid :: "nat list \<Rightarrow> bool" where
  "utf8Valid [] = True"
| "utf8Valid (a # r) =
     (if a < 128 then utf8Valid r
      else if 194 \<le> a \<and> a \<le> 223 then
        (case r of b # r1 \<Rightarrow> cont b \<and> utf8Valid r1 | _ \<Rightarrow> False)
      else if 224 \<le> a \<and> a \<le> 239 then
        (case r of
           b # c # r2 \<Rightarrow>
             (if a = 224 then 160 \<le> b \<and> b \<le> 191
              else if a = 237 then 128 \<le> b \<and> b \<le> 159
              else cont b) \<and> cont c \<and> utf8Valid r2
         | _ \<Rightarrow> False)
      else if 240 \<le> a \<and> a \<le> 244 then
        (case r of
           b # c # d # r3 \<Rightarrow>
             (if a = 240 then 144 \<le> b \<and> b \<le> 191
              else if a = 244 then 128 \<le> b \<and> b \<le> 143
              else cont b) \<and> cont c \<and> cont d \<and> utf8Valid r3
         | _ \<Rightarrow> False)
      else False)"

text \<open>\<open>strings.Split(s, "/")\<close>: the elements between the slashes, empty ones included.\<close>

fun splitSlash :: "string \<Rightarrow> string list" where
  "splitSlash [] = [[]]"
| "splitSlash (c # cs) =
     (if c = CHR ''/'' then [] # splitSlash cs
      else (case splitSlash cs of [] \<Rightarrow> [[c]] | e # es \<Rightarrow> (c # e) # es))"

definition ValidPath :: "string \<Rightarrow> bool" where
  "ValidPath name =
     (utf8Valid (map of_char name) \<and>
      (name = ''.'' \<or> list_all (\<lambda>elem. elem \<noteq> [] \<and> elem \<noteq> ''.'' \<and> elem \<noteq> ''..'') (splitSlash name)))"

definition Localize :: "string \<Rightarrow> error + string" where
  "Localize path =
     (if \<not> ValidPath path then Inl InvalidPath
      else if list_ex (\<lambda>c. of_char c = (0::nat)) path then Inl InvalidPath
      else Inr path)"

subsection \<open>Durable writes\<close>

text \<open>\<open>filepath.Dir\<close> of a clean path: all but the last element.\<close>

definition pathDir :: "string \<Rightarrow> string" where
  "pathDir p =
     (if CHR ''/'' \<notin> set p then ''.''
      else (let d = rev (drop 1 (dropWhile (\<lambda>c. c \<noteq> CHR ''/'') (rev p)))
            in if d = [] then ''/'' else d))"

text \<open>The directory \<open>d\<close> and the directories above it, outermost first.\<close>

definition dirChain :: "string \<Rightarrow> string list" where
  "dirChain d = [take i d. i \<leftarrow> [1..<length d], d ! i = CHR ''/''] @ [d]"

text \<open>
  Modelled from the spec: the package \<open>internal/durable\<close> is not among the sources.
  \<open>MkdirAll\<close> creates the missing directories of the chain and fails on a path element
  that is a file; \<open>WriteFile\<close> writes the whole content aside and renames it into place,
  so that the path then holds exactly \<open>data\<close>, and fails on a directory.
\<close>

fun mkdirChain :: "string list \<Rightarrow> filesystem \<Rightarrow> error option \<times> filesystem" where
  "mkdirChain [] fs = (None, fs)"
| "mkdirChain (a # as) fs =
     (case map_of fs a of
        Some (Dir s) \<Rightarrow> mkdirChain as fs
      | Some (File c i) \<Rightarrow> (Some (ENOTDIR a), fs)
      | None \<Rightarrow> mkdirChain as (fs @ [(a, Dir 4096)]))"

definition MkdirAll :: "'a world_scheme \<Rightarrow> string \<Rightarrow> error option \<times> 'a world_scheme" where
  "MkdirAll w d =
     (let r = mkdirChain (dirChain d) (files w)
      in (fst r, access (OpMkdirAll d) (w\<lparr>files := snd r\<rparr>)))"

definition WriteFile :: "'a world_scheme \<Rightarrow> string \<Rightarrow> byte list \<Rightarrow> error option \<times> 'a world_scheme" where
  "WriteFile w path data =
     (case map_of (files w) path of
        Some (Dir s) \<Rightarrow> (Some (EISDIR path), access (OpWriteFile path) w)
      | _ \<Rightarrow> (None, access (OpWriteFile path)
                 (w\<lparr>files := AList.update path (File data False) (files w)\<rparr>)))"

subsection \<open>Upload, Fetch, Discard\<close>

record LocalBackend =
  dir :: string

record UploadOptions =
  ContentType :: string
  Compressed :: bool
  Immutable :: bool

text \<open>\<open>opts != nil && opts.Immutable\<close>\<close>

definition wantsImmutable :: "UploadOptions option \<Rightarrow> bool" where
  "wantsImmutable opts = (case opts of None \<Rightarrow> False | Some o' \<Rightarrow> Immutable o')"

text \<open>
  \<open>Upload\<close> returns the error and the state it leaves, or \<open>None\<close> when it never
  returns.  The deferred function of the immutable branch runs after a successful write:
  it reopens the file and sets the immutable flag.
\<close>

definition Upload ::
  "(nat \<Rightarrow> nat) \<Rightarrow> LocalBackend \<Rightarrow> string \<Rightarrow> byte list \<Rightarrow> UploadOptions option \<Rightarrow> world
     \<Rightarrow> (error option \<times> world) option" where
  "Upload sched s key data opts w =
     (case Localize key of
        Inl err \<Rightarrow> Some (Some (LocalizeFailed key err), w)
      | Inr name \<Rightarrow>
          (let path = Join (dir s) name in
           case MkdirAll w (pathDir path) of
             (Some err, w1) \<Rightarrow> Some (Some (MkdirFailed (pathDir path) err), w1)
           | (None, w1) \<Rightarrow>
               if wantsImmutable opts then
                 (case Open w1 path of
                    (Inr f, w2) \<Rightarrow>
                      (case compareFile sched f data of
                         None \<Rightarrow> None
                       | Some (Some err) \<Rightarrow> Some (Some (ImmutableMismatch path err), w2)
                       | Some None \<Rightarrow> Some (None, w2))
                  | (Inl e, w2) \<Rightarrow>
                      (case WriteFile w2 path data of
                         (Some err, w3) \<Rightarrow> Some (Some err, w3)
                       | (None, w3) \<Rightarrow>
                           (case Open w3 path of
                              (Inl err, w4) \<Rightarrow> Some (Some err, w4)
                            | (Inr f, w4) \<Rightarrow> Some (None, immutable_Set path w4))))
               else Some (WriteFile w1 path data)))"

text \<open>\<open>os.ReadFile\<close>\<close>

definition ReadFile :: "world \<Rightarrow> string \<Rightarrow> (error + byte list) \<times> world" where
  "ReadFile w path =
     (case map_of (files w) path of
        None \<Rightarrow> Inl (ENOENT path)
      | Some (Dir s) \<Rightarrow> Inl (EISDIR path)
      | Some (File c i) \<Rightarrow> Inr c,
      access (OpReadFile path) w)"

definition Fetch :: "LocalBackend \<Rightarrow> string \<Rightarrow> world \<Rightarrow> (error + byte list) \<times> world" where
  "Fetch s key w =
     (case Localize key of
        Inl err \<Rightarrow> (Inl (LocalizeFailed key err), w)
      | Inr name \<Rightarrow> ReadFile w (Join (dir s) name))"

text \<open>
  \<open>Remove\<close> (of \<open>os\<close> and of \<open>os.Root\<close>): removes a file or an empty directory;
  fails on a missing path, on a file whose immutable flag is set, and on a directory that
  still has something below it.
\<close>

definition hasBelow :: "filesystem \<Rightarrow> string \<Rightarrow> bool" where
  "hasBelow fs name = list_ex (\<lambda>kv. prefix (name @ ''/'') (fst kv)) fs"

definition Remove :: "'a world_scheme \<Rightarrow> string \<Rightarrow> error option \<times> 'a world_scheme" where
  "Remove w name =
     (case map_of (files w) name of
        None \<Rightarrow> (Some (ENOENT name), access (OpRemove name) w)
      | Some (File c i) \<Rightarrow>
          if i then (Some (EPERM name), access (OpRemove name) w)
          else (None, access (OpRemove name) (w\<lparr>files := AList.delete name (files w)\<rparr>))
      | Some (Dir s) \<Rightarrow>
          if hasBelow (files w) name then (Some (ENOTEMPTY name), access (OpRemove name) w)
          else (None, access (OpRemove name) (w\<lparr>files := AList.delete name (files w)\<rparr>)))"

definition Discard :: "LocalBackend \<Rightarrow> string \<Rightarrow> world \<Rightarrow> error option \<times> world" where
  "Discard s key w =
     (case Localize key of
        Inl err \<Rightarrow> (Some (LocalizeFailed key err), w)
      | Inr name \<Rightarrow>
          (let path = Join (dir s) name in
           case Open w path of
             (Inl err, w1) \<Rightarrow> (Some (OpenForDeleteFailed path err), w1)
           | (Inr f, w1) \<Rightarrow> Remove (immutable_Unset path w1) path))"

section \<open>The S3 backend (internal/ctlog/s3.go)\<close>

text \<open>
  What a bucket keeps for a key: the body and the headers that \<open>Upload\<close> sets on its
  \<open>PutObjectInput\<close>.
\<close>

record S3Object =
  Body :: "byte list"
  ContentLength :: int
  ContentEncoding :: "string option"
  ObjectContentType :: string
  CacheControl :: "string option"

record S3Backend =
  bucket :: string
  keyPrefix :: string

text \<open>
  The service and the backend's counters: the objects by bucket and key, the two hedge
  counters and the sizes observed by \<open>uploadSize\<close>.
\<close>

record S3State =
  objects :: "string \<times> string \<rightharpoonup> S3Object"
  hedgeRequests :: nat
  hedgeWins :: nat
  uploadSize :: "nat list"

text \<open>
  One \<open>PutObject\<close> request has no precondition header (\<open>PutObjectInput.IfNoneMatch\<close>
  is not set), so the service stores the object over whatever the key holds; the request's
  outcome, \<open>nil\<close> or an error, is the network's.  A failed request stores nothing.
\<close>

definition PutObject :: "string \<Rightarrow> string \<Rightarrow> S3Object \<Rightarrow> error option \<Rightarrow> S3State \<Rightarrow> S3State" where
  "PutObject b k obj outcome s =
     (case outcome of
        None \<Rightarrow> s\<lparr>objects := (objects s)((b, k) \<mapsto> obj)\<rparr>
      | Some err \<Rightarrow> s)"

text \<open>
  How the race of one \<open>Upload\<close> went: the outcome of the primary request; whether the
  75ms timer fired before the context was done, and then the outcome of the hedge request;
  and whether the hedge's result was already in the channel when the primary returned.
\<close>

record Race =
  primary :: "error option"
  hedge :: "error option option"
  hedgeFirst :: bool

definition Upload_S3 ::
  "S3Backend \<Rightarrow> string \<Rightarrow> byte list \<Rightarrow> UploadOptions option \<Rightarrow> Race \<Rightarrow> S3State
     \<Rightarrow> error option \<times> S3State" where
  "Upload_S3 s key data opts race st =
     (let contentType =
            (case opts of
               Some o' \<Rightarrow> if ContentType o' \<noteq> [] then ContentType o' else ''application/octet-stream''
             | None \<Rightarrow> ''application/octet-stream'');
          contentEncoding =
            (case opts of Some o' \<Rightarrow> if Compressed o' then Some ''gzip'' else None | None \<Rightarrow> None);
          cacheControl =
            (if wantsImmutable opts then Some ''public, max-age=604800, immutable'' else None);
          obj = \<lparr>Body = data, ContentLength = int (length data), ContentEncoding = contentEncoding,
                 ObjectContentType = contentType, CacheControl = cacheControl\<rparr>;
          st1 = (case hedge race of
                   None \<Rightarrow> st
                 | Some outcome \<Rightarrow>
                     PutObject (bucket s) (keyPrefix s @ key) obj outcome
                       (st\<lparr>hedgeRequests := hedgeRequests st + 1\<rparr>));
          st2 = PutObject (bucket s) (keyPrefix s @ key) obj (primary race) st1;
          won = (hedge race \<noteq> None \<and> hedgeFirst race);
          err = (if won then the (hedge race) else primary race);
          st3 = (if won then st2\<lparr>hedgeWins := hedgeWins st2 + 1\<rparr> else st2);
          st4 = st3\<lparr>uploadSize := uploadSize st3 @ [length data]\<rparr>
      in (case err of
            Some e \<Rightarrow> (Some (S3UploadFailed key e), st4)
          | None \<Rightarrow> (None, st4)))"

section \<open>The compactor (partial-aftersun)\<close>

subsection \<open>Tiles\<close>

record Tile =
  tileH :: int
  tileL :: int
  tileN :: int
  tileW :: int

definition TileHeight :: int where
  "TileHeight = 8"

definition TileWidth :: int where
  "TileWidth = 256"

definition wrap64 :: "int \<Rightarrow> int" where
  "wrap64 x = (x + 2 ^ 63) mod 2 ^ 64 - 2 ^ 63"

definition goDiv :: "int \<Rightarrow> int \<Rightarrow> int" where
  "goDiv a b = wrap64 (sgn a * sgn b * (\<bar>a\<bar> div \<bar>b\<bar>))"

definition tileSize :: "Tile \<Rightarrow> error + int" where
  "tileSize t =
     (let count = wrap64 (TileHeight * wrap64 (max 0 (tileL t) + 1))
      in if count < 0 then Inl PanicNegativeShift
         else Inr (if 64 \<le> count then 0 else wrap64 (2 ^ nat count)))"

definition atRightEdge :: "int \<Rightarrow> Tile \<Rightarrow> error + bool" where
  "atRightEdge logsize t =
     (case tileSize t of
        Inl p \<Rightarrow> Inl p
      | Inr ts \<Rightarrow> if ts = 0 then Inl PanicDivideByZero else Inr (goDiv logsize ts \<le> tileN t))"

subsection \<open>Strings\<close>

definition CutSuffix :: "string \<Rightarrow> string \<Rightarrow> string option" where
  "CutSuffix s suf = (if suffix suf s then Some (take (length s - length suf) s) else None)"

definition TrimSuffix :: "string \<Rightarrow> string \<Rightarrow> string" where
  "TrimSuffix s suf = (if suffix suf s then take (length s - length suf) s else s)"

fun Cut :: "string \<Rightarrow> string \<Rightarrow> (string \<times> string) option" where
  "Cut [] sep = (if sep = [] then Some ([], []) else None)"
| "Cut (c # cs) sep =
     (if prefix sep (c # cs) then Some ([], drop (length sep) (c # cs))
      else (case Cut cs sep of None \<Rightarrow> None | Some (b, a) \<Rightarrow> Some (c # b, a)))"

definition isDigit :: "char \<Rightarrow> bool" where
  "isDigit c = (48 \<le> (of_char c :: nat) \<and> (of_char c :: nat) \<le> 57)"

definition digitsVal :: "string \<Rightarrow> int" where
  "digitsVal ds = foldl (\<lambda>v c. 10 * v + (int (of_char c) - 48)) 0 ds"

definition Atoi :: "string \<Rightarrow> int option" where
  "Atoi s =
     (let neg = prefix ''-'' s;
          ds = (if prefix ''-'' s \<or> prefix ''+'' s then drop 1 s else s);
          v = (if neg then - digitsVal ds else digitsVal ds)
      in if ds = [] \<or> \<not> list_all isDigit ds then None
         else if v < - (2 ^ 63) \<or> 2 ^ 63 - 1 < v then None
         else Some v)"

subsection \<open>The directory tree\<close>

record compactor = world +
  removedFiles :: int
  removedDirs :: int
  removedBytes :: int

record Context =
  cancelAt :: "nat option"

definition ctxErr :: "Context \<Rightarrow> 'a world_scheme \<Rightarrow> error option" where
  "ctxErr ctx w =
     (case cancelAt ctx of
        None \<Rightarrow> None
      | Some k \<Rightarrow> if k \<le> length (trace w) then Some Canceled else None)"

text \<open>
  \<open>fs.ReadDir(root.FS(), name)\<close>.  The file system of an \<open>os.Root\<close> refuses a name
  that is not a valid \<open>io/fs\<close> path; otherwise the names of the entries of the directory
  come back sorted.  An entry is a path one plain element below \<open>name\<close>: a listing never
  holds \<open>.\<close> or \<open>..\<close>.  The root itself, \<open>.\<close>, has no path in \<open>files\<close> and is not
  listed by these sources, \<open>main\<close> starting at \<open>tile\<close>.
\<close>

definition childName :: "string \<Rightarrow> string \<Rightarrow> string option" where
  "childName pfx k =
     (if prefix (pfx @ ''/'') k then
        (let rest = drop (length pfx + 1) k
         in if rest \<noteq> [] \<and> rest \<noteq> ''.'' \<and> rest \<noteq> ''..'' \<and> CHR ''/'' \<notin> set rest
            then Some rest else None)
      else None)"

definition ReadDir :: "'a world_scheme \<Rightarrow> string \<Rightarrow> (error + string list) \<times> 'a world_scheme" where
  "ReadDir w name =
     (if \<not> ValidPath name then Inl (EINVAL name)
      else (case map_of (files w) name of
              None \<Rightarrow> Inl (ENOENT name)
            | Some (File c i) \<Rightarrow> Inl (ENOTDIR name)
            | Some (Dir s) \<Rightarrow> Inr (sort (remdups (List.map_filter (childName name) (map fst (files w)))))),
      access (OpReadDir name) w)"

definition Stat :: "'a world_scheme \<Rightarrow> string \<Rightarrow> (error + node) \<times> 'a world_scheme" where
  "Stat w name =
     (case map_of (files w) name of None \<Rightarrow> Inl (ENOENT name) | Some n \<Rightarrow> Inr n,
      access (OpStat name) w)"

definition Info :: "'a world_scheme \<Rightarrow> string \<Rightarrow> (error + int) \<times> 'a world_scheme" where
  "Info w name =
     (case map_of (files w) name of None \<Rightarrow> Inl (ENOENT name) | Some n \<Rightarrow> Inr (Size n),
      access (OpInfo name) w)"

subsection \<open>overrideImmutable and cleanDir\<close>

definition overrideImmutable :: "compactor \<Rightarrow> string \<Rightarrow> error option \<times> compactor" where
  "overrideImmutable st name =
     (case Cut name ''.p/'' of
        None \<Rightarrow> (Some (ParsePartialPathFailed name), st)
      | Some (full, width) \<Rightarrow>
          (case Atoi width of
             None \<Rightarrow> (Some (ParsePartialSizeFailed width), st)
           | Some n \<Rightarrow>
               (case Stat st full of
                  (Inl err, st1) \<Rightarrow> (Some (StatFullTileFailed full err), st1)
                | (Inr fi, st1) \<Rightarrow>
                    if IsDir fi then (Some (FullTileIsDirectory full), st1)
                    else if Size fi = 0 then (Some (FullTileIsEmpty full), st1)
                    else (case Open st1 name of
                            (Inl err, st2) \<Rightarrow> (Some err, st2)
                          | (Inr f, st2) \<Rightarrow> (None, immutable_Unset name st2)))))"

fun cleanPartials ::
  "(string \<Rightarrow> error + Tile) \<Rightarrow> string \<Rightarrow> string \<Rightarrow> string list \<Rightarrow> compactor \<Rightarrow> error option \<times> compactor" where
  "cleanPartials parse pfx entry [] st = (None, st)"
| "cleanPartials parse pfx entry (partial # rest) st =
     (let name = Join (Join pfx entry) partial in
      case parse name of
        Inl err \<Rightarrow> (Some (ParseTilePathFailed name err), st)
      | Inr t \<Rightarrow>
          if tileW t = TileWidth then (Some (NotAPartialTile name), st)
          else (case overrideImmutable st name of
                  (Some err, st1) \<Rightarrow> (Some (OverrideImmutableFailed name err), st1)
                | (None, st1) \<Rightarrow>
                    (case Info (st1\<lparr>removedFiles := removedFiles st1 + 1\<rparr>) name of
                       (Inl err, st2) \<Rightarrow> (Some err, st2)
                     | (Inr n, st2) \<Rightarrow>
                         (case Remove (st2\<lparr>removedBytes := removedBytes st2 + n\<rparr>) name of
                            (Some err, st3) \<Rightarrow> (Some err, st3)
                          | (None, st3) \<Rightarrow> cleanPartials parse pfx entry rest st3))))"

definition cleanGroup ::
  "(string \<Rightarrow> error + Tile) \<Rightarrow> string \<Rightarrow> int \<Rightarrow> string list \<Rightarrow> string \<Rightarrow> compactor \<Rightarrow> error option \<times> compactor" where
  "cleanGroup parse pfx logsize names entry st =
     (let name = Join pfx entry in
      case CutSuffix entry ''.p'' of
        None \<Rightarrow> (None, st)
      | Some full \<Rightarrow>
          if full \<notin> set names then (None, st)
          else (case parse (TrimSuffix name ''.p'') of
                  Inl err \<Rightarrow> (Some (ParseTilePathFailed name err), st)
                | Inr t \<Rightarrow>
                    (case atRightEdge logsize t of
                       Inl p \<Rightarrow> (Some p, st)
                     | Inr True \<Rightarrow> (None, st)
                     | Inr False \<Rightarrow>
                         (case ReadDir st name of
                            (Inl err, st1) \<Rightarrow> (Some err, st1)
                          | (Inr partials, st1) \<Rightarrow>
                              (case cleanPartials parse pfx entry partials st1 of
                                 (Some err, st2) \<Rightarrow> (Some err, st2)
                               | (None, st2) \<Rightarrow>
                                   (case Info (st2\<lparr>removedDirs := removedDirs st2 + 1\<rparr>) name of
                                      (Inl err, st3) \<Rightarrow> (Some err, st3)
                                    | (Inr n, st3) \<Rightarrow>
                                        Remove (st3\<lparr>removedBytes := removedBytes st3 + n\<rparr>) name))))))"

function cleanDir ::
    "(string \<Rightarrow> error + Tile) \<Rightarrow> Context \<Rightarrow> string \<Rightarrow> int \<Rightarrow> compactor \<Rightarrow> error option \<times> compactor"
  and cleanEntries ::
    "(string \<Rightarrow> error + Tile) \<Rightarrow> Context \<Rightarrow> string \<Rightarrow> int \<Rightarrow> string list \<Rightarrow> string list \<Rightarrow> compactor
       \<Rightarrow> error option \<times> compactor" where
  "cleanDir parse ctx pfx logsize st =
     (case ctxErr ctx st of
        Some err \<Rightarrow> (Some err, st)
      | None \<Rightarrow>
          (case ReadDir st pfx of
             (Inl err, st1) \<Rightarrow> (Some err, st1)
           | (Inr entries, st1) \<Rightarrow> cleanEntries parse ctx pfx logsize entries entries st1))"
| "cleanEntries parse ctx pfx logsize names [] st = (None, st)"
| "cleanEntries parse ctx pfx logsize names (entry # rest) st =
     (if prefix ''x'' entry then
        (case cleanDir parse ctx (Join pfx entry) logsize st of
           (Some err, st1) \<Rightarrow> (Some err, st1)
         | (None, st1) \<Rightarrow> cleanEntries parse ctx pfx logsize names rest st1)
      else
        (case cleanGroup parse pfx logsize names entry st of
           (Some err, st1) \<Rightarrow> (Some err, st1)
         | (None, st1) \<Rightarrow> cleanEntries parse ctx pfx logsize names rest st1))"
  by pat_completeness auto


definition keys :: "'a world_scheme \<Rightarrow> string list" where
  "keys w = map fst (files w)"

definition shrinks :: "'a world_scheme \<Rightarrow> 'b world_scheme \<Rightarrow> bool" where
  "shrinks w' w = subseq (keys w') (keys w)"

lemma shrinks_refl [simp]: "shrinks w w"
  by (simp add: shrinks_def)

lemma shrinks_trans: "shrinks w2 w1 \<Longrightarrow> shrinks w1 w \<Longrightarrow> shrinks w2 w"
  unfolding shrinks_def by (rule subseq_order.order_trans)

lemma keys_access [simp]: "keys (access op w) = keys w"
  by (simp add: keys_def access_def)

lemma keys_counter_updates [simp]:
  "keys (st\<lparr>removedFiles := a\<rparr>) = keys st"
  "keys (st\<lparr>removedDirs := b\<rparr>) = keys st"
  "keys (st\<lparr>removedBytes := c\<rparr>) = keys st"
  by (simp_all add: keys_def)

lemma keys_setFlag: "map fst (setFlag b name fs) = map fst fs"
proof (cases "map_of fs name")
  case None
  then show ?thesis by (simp add: setFlag_def)
next
  case (Some n)
  then have "name \<in> set (map fst fs)" by (metis map_of_eq_None_iff option.distinct(1) set_map)
  then show ?thesis using Some
    by (cases n) (simp_all add: setFlag_def AList.update_keys)
qed

lemma keys_immutable_Unset [simp]: "keys (immutable_Unset name w) = keys w"
  by (simp add: immutable_Unset_def keys_def access_def keys_setFlag)

lemma keys_delete: "subseq (map fst (AList.delete name fs)) (map fst fs)"
  by (induction fs) (auto simp: AList.delete_eq)

lemma shrinks_Remove: "Remove w name = (r, w') \<Longrightarrow> shrinks w' w"
  by (auto simp: Remove_def shrinks_def keys_def access_def keys_delete
      split: option.splits node.splits if_splits)

lemma keys_Stat: "Stat w name = (r, w') \<Longrightarrow> keys w' = keys w"
  by (auto simp: Stat_def)

lemma keys_Info: "Info w name = (r, w') \<Longrightarrow> keys w' = keys w"
  by (auto simp: Info_def)

lemma keys_Open: "Open w name = (r, w') \<Longrightarrow> keys w' = keys w"
  by (auto simp: Open_def)

lemma keys_ReadDir: "ReadDir w name = (r, w') \<Longrightarrow> keys w' = keys w"
  by (auto simp: ReadDir_def)

lemma keys_overrideImmutable: "overrideImmutable st name = (r, st') \<Longrightarrow> keys st' = keys st"
  unfolding overrideImmutable_def
  by (auto split: option.splits prod.splits sum.splits if_splits)
     (metis keys_Stat keys_Open)+

lemma shrinks_keys_eq: "keys w' = keys w \<Longrightarrow> shrinks w' w"
  by (simp add: shrinks_def)

lemma shrinks_cleanPartials:
  "cleanPartials parse pfx entry ps st = (r, st') \<Longrightarrow> shrinks st' st"
proof (induction ps arbitrary: st)
  case Nil
  then show ?case by simp
next
  case (Cons p ps)
  show ?case
  proof (cases "parse (Join (Join pfx entry) p)")
    case (Inl e)
    with Cons.prems show ?thesis by (simp add: Let_def)
  next
    case (Inr t)
    show ?thesis
    proof (cases "tileW t = TileWidth")
      case True
      with Inr Cons.prems show ?thesis by (simp add: Let_def)
    next
      case False
      obtain r1 st1 where o: "overrideImmutable st (Join (Join pfx entry) p) = (r1, st1)" by force
      then have k1: "keys st1 = keys st" by (rule keys_overrideImmutable)
      show ?thesis
      proof (cases r1)
        case (Some e)
        with Inr False o Cons.prems k1 show ?thesis by (auto simp: Let_def shrinks_def)
      next
        case None
        obtain r2 st2 where i: "Info (st1\<lparr>removedFiles := removedFiles st1 + 1\<rparr>) (Join (Join pfx entry) p) = (r2, st2)" by force
        then have k2: "keys st2 = keys st" using k1 by (auto dest: keys_Info)
        show ?thesis
        proof (cases r2)
          case (Inl e)
          with Inr False o None i Cons.prems k2 show ?thesis by (auto simp: Let_def shrinks_def)
        next
          case (Inr n)
          obtain r3 st3 where rm: "Remove (st2\<lparr>removedBytes := removedBytes st2 + n\<rparr>) (Join (Join pfx entry) p) = (r3, st3)" by force
          then have "shrinks st3 (st2\<lparr>removedBytes := removedBytes st2 + n\<rparr>)" by (rule shrinks_Remove)
          then have k3: "shrinks st3 st" using k2 by (simp add: shrinks_def)
          show ?thesis
          proof (cases r3)
            case (Some e)
            with \<open>parse _ = Inr t\<close> False o None i Inr rm Cons.prems k3 show ?thesis by (auto simp: Let_def)
          next
            case N3: None
            with \<open>parse _ = Inr t\<close> False o None i Inr rm Cons.prems
            have "cleanPartials parse pfx entry ps st3 = (r, st')" by (auto simp: Let_def)
            from Cons.IH [OF this] k3 show ?thesis by (rule shrinks_trans)
          qed
        qed
      qed
    qed
  qed
qed

lemma shrinks_cleanGroup:
  assumes "cleanGroup parse pfx logsize names entry st = (r, st')"
  shows "shrinks st' st"
proof -
  { fix ps st1 r2 st2 r3 st3 n
    assume rd: "ReadDir st (Join pfx entry) = (Inr ps, st1)"
      and cp: "cleanPartials parse pfx entry ps st1 = (r2, st2)"
    have a: "shrinks st2 st" using shrinks_cleanPartials [OF cp] keys_ReadDir [OF rd]
      by (simp add: shrinks_def)
    have "Info (st2\<lparr>removedDirs := removedDirs st2 + 1\<rparr>) (Join pfx entry) = (r3, st3) \<Longrightarrow> shrinks st3 st"
      using a by (auto dest!: keys_Info simp: shrinks_def)
    moreover have "Info (st2\<lparr>removedDirs := removedDirs st2 + 1\<rparr>) (Join pfx entry) = (r3, st3) \<Longrightarrow>
        Remove (st3\<lparr>removedBytes := removedBytes st3 + n\<rparr>) (Join pfx entry) = (r, st') \<Longrightarrow> shrinks st' st"
      using a by (auto dest!: keys_Info shrinks_Remove simp: shrinks_def)
    note a calculation this }
  note inner = this
  show ?thesis using assms
    by (auto simp: cleanGroup_def Let_def inner dest: keys_ReadDir shrinks_keys_eq
        split: option.splits sum.splits if_splits prod.splits bool.splits)
qed


lemma shrinks_cleanDir_partial:
  "cleanDir_cleanEntries_dom (Inl (parse, ctx, pfx, logsize, st)) \<Longrightarrow>
     shrinks (snd (cleanDir parse ctx pfx logsize st)) st"
  "cleanDir_cleanEntries_dom (Inr (parse, ctx, pfx, logsize, names, es, st)) \<Longrightarrow>
     shrinks (snd (cleanEntries parse ctx pfx logsize names es st)) st"
proof (induction parse ctx pfx logsize st and parse ctx pfx logsize names es st
    rule: cleanDir_cleanEntries.pinduct)
  case (1 parse ctx pfx logsize st)
  show ?case
  proof (cases "ctxErr ctx st")
    case (Some e)
    then show ?thesis using 1(1) by (simp add: cleanDir.psimps)
  next
    case None
    obtain r st1 where rd: "ReadDir st pfx = (r, st1)" by force
    then have k: "keys st1 = keys st" by (rule keys_ReadDir)
    show ?thesis
    proof (cases r)
      case (Inl e)
      then show ?thesis using 1(1) None rd k by (simp add: cleanDir.psimps shrinks_def)
    next
      case (Inr es)
      have "shrinks (snd (cleanEntries parse ctx pfx logsize es es st1)) st1"
        using 1(2) [OF None rd [symmetric] Inr] .
      then show ?thesis using 1(1) None rd Inr k by (simp add: cleanDir.psimps shrinks_def)
    qed
  qed
next
  case (2 parse ctx pfx logsize names st)
  then show ?case by (simp add: cleanEntries.psimps)
next
  case (3 parse ctx pfx logsize names entry rest st)
  show ?case
  proof (cases "prefix ''x'' entry")
    case True
    obtain r st1 where c: "cleanDir parse ctx (Join pfx entry) logsize st = (r, st1)" by force
    have s1: "shrinks st1 st" using 3(2) [OF True] c by simp
    show ?thesis
    proof (cases r)
      case None
      have "shrinks (snd (cleanEntries parse ctx pfx logsize names rest st1)) st1"
        using 3(3) [OF True c [symmetric] None] .
      then show ?thesis using 3(1) True c None s1
        by (simp add: cleanEntries.psimps) (erule shrinks_trans, assumption)
    next
      case (Some e)
      then show ?thesis using 3(1) True c s1 by (simp add: cleanEntries.psimps)
    qed
  next
    case False
    obtain r st1 where c: "cleanGroup parse pfx logsize names entry st = (r, st1)" by force
    have s1: "shrinks st1 st" using c by (rule shrinks_cleanGroup)
    show ?thesis
    proof (cases r)
      case None
      have "shrinks (snd (cleanEntries parse ctx pfx logsize names rest st1)) st1"
        using 3(4) [OF False c [symmetric] None] .
      then show ?thesis using 3(1) False c None s1
        by (simp add: cleanEntries.psimps) (erule shrinks_trans, assumption)
    next
      case (Some e)
      then show ?thesis using 3(1) False c s1 by (simp add: cleanEntries.psimps)
    qed
  qed
qed

definition below :: "string \<Rightarrow> 'a world_scheme \<Rightarrow> nat" where
  "below p w = length (filter (prefix p) (keys w))"

lemma below_shrinks: "shrinks w' w \<Longrightarrow> below p w' \<le> below p w"
  unfolding below_def shrinks_def
  by (intro list_emb_length [where P = "(=)"] subseq_filter)

lemma below_mono: "prefix p q \<Longrightarrow> below q w \<le> below p w"
proof -
  assume pq: "prefix p q"
  have "filter (prefix q) (keys w) = filter (prefix q) (filter (prefix p) (keys w))"
    using pq by (auto intro!: filter_cong dest: prefix_order.trans)
  then have "below q w = length (filter (prefix q) (filter (prefix p) (keys w)))"
    by (simp only: below_def)
  also have "\<dots> \<le> length (filter (prefix p) (keys w))" by (rule length_filter_le)
  finally show ?thesis by (simp only: below_def)
qed

lemma below_strict:
  assumes "p \<in> set (keys w)"
  shows "below (p @ ''/'') w < below p w"
proof -
  have eq: "filter (prefix (p @ ''/'')) (keys w) = filter (prefix (p @ ''/'')) (filter (prefix p) (keys w))"
    by (auto intro!: filter_cong dest: append_prefixD)
  have "p \<in> set (filter (prefix p) (keys w))" using assms by simp
  moreover have "\<not> prefix (p @ ''/'') p" by (simp add: prefix_def)
  ultimately have "length (filter (prefix (p @ ''/'')) (filter (prefix p) (keys w))) < length (filter (prefix p) (keys w))"
    by (intro length_filter_less) auto
  then show ?thesis using eq by (simp only: below_def)
qed

lemma ReadDir_Inr_key: "ReadDir w name = (Inr es, w') \<Longrightarrow> name \<in> set (keys w) \<and> keys w' = keys w"
  by (auto simp: ReadDir_def keys_def access_def dest!: map_of_SomeD split: option.splits node.splits if_splits)
     (metis fst_conv image_eqI)



lemma ReadDir_ValidPath: "ReadDir w name = (Inr es, w') \<Longrightarrow> ValidPath name"
  by (auto simp: ReadDir_def split: if_splits)

termination cleanDir
proof (relation "measures
    [\<lambda>a. case a of Inl (parse, ctx, pfx, logsize, st) \<Rightarrow> 2 * below pfx st
               | Inr (parse, ctx, pfx, logsize, names, es, st) \<Rightarrow> 2 * below (pfx @ ''/'') st + 1,
     \<lambda>a. case a of Inl (parse, ctx, pfx, logsize, st) \<Rightarrow> 0
               | Inr (parse, ctx, pfx, logsize, names, es, st) \<Rightarrow> length es]", goal_cases)
  case 1
  show ?case by simp
next
  case (2 parse ctx pfx logsize st x y b)
  then have "ReadDir st pfx = (Inr b, y)" by simp
  from ReadDir_Inr_key [OF this] below_strict [of pfx st]
  show ?case by (simp add: below_def)
next
  case (3 parse ctx pfx logsize names entry rest st)
  have "below (Join pfx entry) st \<le> below (pfx @ ''/'') st"
    using 3(1) by (intro below_mono) (auto simp: Join_def)
  then show ?case by simp
next
  case (4 parse ctx pfx logsize names entry rest st x y)
  then have "shrinks y st" using shrinks_cleanDir_partial(1) [OF 4(4)] by (metis snd_conv)
  from below_shrinks [OF this, of "pfx @ ''/''"] show ?case by auto
next
  case (5 parse ctx pfx logsize names entry rest st x y)
  then have "shrinks y st" using shrinks_cleanGroup by metis
  from below_shrinks [OF this, of "pfx @ ''/''"] show ?case by auto
qed

declare cleanDir.simps [simp del]

section \<open>The command (partial-aftersun, main and logSize)\<close>








text \<open>
  The process: its exit code so far, the three process-wide counters, the operations
  done, and the directories of the logs already handled.  It ends with an exit status and,
  when the last line of \<open>main\<close> is reached, the logged summary (files, dirs, bytes).
\<close>

record Process =
  exitCode :: int
  counters :: "int \<times> int \<times> int"
  done_ops :: "fsop list"
  handled :: "filesystem list"







definition enter :: "Process \<Rightarrow> filesystem \<Rightarrow> compactor" where
  "enter p fs =
     \<lparr>files = fs, trace = done_ops p,
      removedFiles = fst (counters p), removedDirs = fst (snd (counters p)),
      removedBytes = snd (snd (counters p))\<rparr>"

definition leave :: "Process \<Rightarrow> compactor \<Rightarrow> Process" where
  "leave p st =
     p\<lparr>counters := (removedFiles st, removedDirs st, removedBytes st),
       done_ops := trace st, handled := handled p @ [files st]\<rparr>"



section \<open>Properties of the local backend\<close>

lemma compareLoop_zero_buffer_aux:
  assumes "compareLoop sched blen f d = Some y"
  shows "\<not> (blen = 0 \<and> d = [])"
proof (rule compareLoop.raw_induct [OF _ assms])
  fix cl :: "(nat \<Rightarrow> nat) \<Rightarrow> nat \<Rightarrow> handle \<Rightarrow> byte list \<Rightarrow> error option option"
  fix s b h dd r
  assume IH: "\<And>s b h dd r. cl s b h dd = Some r \<Longrightarrow> \<not> (b = 0 \<and> dd = [])"
  assume step: "(let r = Read s h b; bs = fst r; err = fst (snd r); f' = snd (snd r); n = length bs in
      if err \<noteq> None \<and> err \<noteq> Some EOF then Some err
      else if n > length dd \<or> bs \<noteq> take n dd then Some (Some ContentsDoNotMatch)
      else if err = Some EOF then
        (if drop n dd = [] then Some None else Some (Some ContentsDoNotMatch))
      else cl s b f' (drop n dd)) = Some r"
  show "\<not> (b = 0 \<and> dd = [])"
  proof
    assume a: "b = 0 \<and> dd = []"
    from step a have "cl s 0 h [] = Some r"
      by (simp add: Read_def)
    from IH [OF this] show False by simp
  qed
qed

lemma compareLoop_zero_buffer:
  "compareLoop sched 0 f [] = None"
proof (cases "compareLoop sched 0 f []")
  case (Some y)
  from compareLoop_zero_buffer_aux [OF this] show ?thesis by simp
qed simp

lemma compareLoop_result:
  "0 < blen \<Longrightarrow> compareLoop sched blen (FileHandle c) d = Some (if c = d then None else Some ContentsDoNotMatch)"
proof (induction c arbitrary: d rule: length_induct)
  case (1 c)
  show ?case
  proof (cases "c = []")
    case True
    then show ?thesis using 1(2)
      by (subst compareLoop.simps) (auto simp: Read_def Let_def)
  next
    case False
    define n where "n = max 1 (min (sched (length c)) (min blen (length c)))"
    have n: "1 \<le> n" "n \<le> length c" using False 1(2) by (auto simp: n_def Suc_leI)
    have rd: "Read sched (FileHandle c) blen = (take n c, None, FileHandle (drop n c))"
      using False 1(2) by (simp add: Read_def n_def Let_def)
    have len: "length (take n c) = n" using n by simp
    show ?thesis
    proof (cases "n > length d \<or> take n c \<noteq> take n d")
      case True
      then have "c \<noteq> d" using n by auto
      then show ?thesis using True rd len
        by (subst compareLoop.simps) (simp add: Let_def)
    next
      case F2: False
      have "length (drop n c) < length c" using n False by simp
      then have IH: "compareLoop sched blen (FileHandle (drop n c)) (drop n d) =
          Some (if drop n c = drop n d then None else Some ContentsDoNotMatch)"
        using 1(1) 1(2) by blast
      have eq: "(c = d) = (drop n c = drop n d)"
        using F2 by (metis append_take_drop_id)
      show ?thesis using F2 rd len IH eq
        by (subst compareLoop.simps) (simp add: Let_def)
    qed
  qed
qed

lemma compareFile_nonempty:
  "data \<noteq> [] \<Longrightarrow> compareFile sched (FileHandle c) data = Some (if c = data then None else Some ContentsDoNotMatch)"
  by (simp add: compareFile_def compareLoop_result)

lemma mkdirChain_existing:
  "\<forall>a \<in> set as. \<exists>sz. map_of fs a = Some (Dir sz) \<Longrightarrow> mkdirChain as fs = (None, fs)"
  by (induction as) auto

definition parentsExist :: "filesystem \<Rightarrow> string \<Rightarrow> bool" where
  "parentsExist fs path = list_all (\<lambda>a. case map_of fs a of Some (Dir sz) \<Rightarrow> True | _ \<Rightarrow> False) (dirChain (pathDir path))"

lemma MkdirAll_existing:
  "parentsExist (files w) path \<Longrightarrow> MkdirAll w (pathDir path) = (None, access (OpMkdirAll (pathDir path)) w)"
proof -
  assume "parentsExist (files w) path"
  then have "\<forall>a \<in> set (dirChain (pathDir path)). \<exists>sz. map_of (files w) a = Some (Dir sz)"
    unfolding parentsExist_def list_all_iff
    by (metis (no_types, lifting) node.exhaust node.simps(5) option.exhaust option.simps(4,5))
  then show ?thesis
    by (simp add: MkdirAll_def mkdirChain_existing)
qed

lemma Upload_immutable_existing:
  assumes "Localize key = Inr name" and "map_of (files w) (Join (dir s) name) = Some (File c i)"
    and "parentsExist (files w) (Join (dir s) name)" and "wantsImmutable opts" and "data \<noteq> []"
  shows "Upload sched s key data opts w =
     Some (if c = data then None else Some (ImmutableMismatch (Join (dir s) name) ContentsDoNotMatch),
           access (OpOpen (Join (dir s) name)) (access (OpMkdirAll (pathDir (Join (dir s) name))) w))"
  using assms
  by (simp add: Upload_def MkdirAll_existing Open_def access_def compareFile_nonempty Let_def)

text \<open>
  C4.  An immutable \<open>Upload\<close> to a key that already holds an object should succeed, and
  change nothing, when the stored bytes equal the data, and fail with a content mismatch
  otherwise.  For non-empty data this is \<open>Upload_immutable_existing\<close> above.  With empty
  data the claim fails: the stored object is empty too, the bytes are equal, and \<open>Upload\<close>
  never returns.
\<close>

theorem immutable_upload_empty_data_hangs:
  "Upload sched \<lparr>dir = ''d''\<rparr> ''k'' [] (Some \<lparr>ContentType = [], Compressed = False, Immutable = True\<rparr>)
     \<lparr>files = [(''d'', Dir 4096), (''d/k'', File [] False)], trace = []\<rparr> = None"
  by (simp add: Upload_def Localize_def ValidPath_def Join_def pathDir_def MkdirAll_def dirChain_def
      wantsImmutable_def Open_def access_def compareFile_def compareLoop_zero_buffer)

text \<open>
  C10.  \<open>compareFile\<close> should return for every file and every data.  With empty data the
  buffer has length zero, every \<open>Read\<close> returns \<open>0, nil\<close> and the loop never ends,
  whatever the file holds.
\<close>

theorem compareFile_empty_data_never_returns:
  "compareFile sched (FileHandle c) [] = None"
  by (simp add: compareFile_def compareLoop_zero_buffer)

lemma slash_prefix_split: "prefix ''/'' key \<Longrightarrow> [] \<in> set (splitSlash key)"
  by (cases key) (auto simp: prefix_def)

lemma Localize_rejects_escape:
  assumes "''..'' \<in> set (splitSlash key) \<or> prefix ''/'' key"
  shows "Localize key = Inl InvalidPath"
proof -
  have "key \<noteq> ''.''" using assms by (auto simp: prefix_def)
  moreover have "\<not> list_all (\<lambda>elem. elem \<noteq> [] \<and> elem \<noteq> ''.'' \<and> elem \<noteq> ''..'') (splitSlash key)"
    using assms slash_prefix_split by (auto simp: list_all_iff)
  ultimately show ?thesis by (simp add: Localize_def ValidPath_def)
qed

text \<open>
  C7.  A key that cannot be localized, in particular one with a \<open>..\<close> element or a
  leading slash, makes \<open>Upload\<close>, \<open>Fetch\<close> and \<open>Discard\<close> return the localization
  error at once: the files are as before and no filesystem operation was requested.
\<close>

theorem local_backend_path_sandboxing:
  assumes "Localize key = Inl e \<or> ''..'' \<in> set (splitSlash key) \<or> prefix ''/'' key"
  shows "\<exists>e'. Localize key = Inl e' \<and>
           Upload sched s key data opts w = Some (Some (LocalizeFailed key e'), w) \<and>
           Fetch s key w = (Inl (LocalizeFailed key e'), w) \<and>
           Discard s key w = (Some (LocalizeFailed key e'), w)"
proof -
  from assms obtain e' where "Localize key = Inl e'"
    using Localize_rejects_escape by blast
  then show ?thesis
    by (simp add: Upload_def Fetch_def Discard_def)
qed

theorem local_backend_path_sandboxing_witness:
  "''..'' \<in> set (splitSlash ''../checkpoint'') \<and>
   Upload (\<lambda>n. n) \<lparr>dir = ''d''\<rparr> ''../checkpoint'' [1] None \<lparr>files = [(''d'', Dir 4096)], trace = []\<rparr>
     = Some (Some (LocalizeFailed ''../checkpoint'' InvalidPath), \<lparr>files = [(''d'', Dir 4096)], trace = []\<rparr>)"
proof -
  have h: "''..'' \<in> set (splitSlash ''../checkpoint'')" by simp
  have l: "Localize ''../checkpoint'' = Inl InvalidPath" by (simp add: Localize_def ValidPath_def)
  show ?thesis
    using h l local_backend_path_sandboxing [of "''../checkpoint''" InvalidPath "\<lambda>n. n" "\<lparr>dir = ''d''\<rparr>" "[1]" None "\<lparr>files = [(''d'', Dir 4096)], trace = []\<rparr>"]
    by auto
qed

section \<open>What the walk can change\<close>

definition under :: "string \<Rightarrow> string \<Rightarrow> bool" where
  "under p k = (k = p \<or> prefix (p @ ''/'') k)"

definition touches :: "'a world_scheme \<Rightarrow> 'b world_scheme \<Rightarrow> string set \<Rightarrow> bool" where
  "touches w' w K = (\<forall>k. k \<notin> K \<longrightarrow> map_of (files w') k = map_of (files w) k)"

lemma touches_refl [simp]: "touches w w K"
  by (simp add: touches_def)


lemma touches_trans: "touches w2 w1 K \<Longrightarrow> touches w1 w K \<Longrightarrow> touches w2 w K"
  by (simp add: touches_def)


lemma files_access [simp]: "files (access op w) = files w"
  by (simp add: access_def)

lemma files_Stat: "Stat w name = (r, w') \<Longrightarrow> files w' = files w"
  by (auto simp: Stat_def)

lemma files_Info: "Info w name = (r, w') \<Longrightarrow> files w' = files w"
  by (auto simp: Info_def)

lemma files_Open: "Open w name = (r, w') \<Longrightarrow> files w' = files w"
  by (auto simp: Open_def)

lemma files_ReadDir: "ReadDir w name = (r, w') \<Longrightarrow> files w' = files w"
  by (auto simp: ReadDir_def)

lemma map_of_setFlag_other: "k \<noteq> name \<Longrightarrow> map_of (setFlag b name fs) k = map_of fs k"
  by (auto simp: setFlag_def AList.update_conv' split: option.splits node.splits)

lemma touches_Unset: "touches (immutable_Unset name w) w {name}"
  by (simp add: touches_def immutable_Unset_def map_of_setFlag_other)

lemma touches_Remove: "Remove w name = (r, w') \<Longrightarrow> touches w' w {name}"
  by (auto simp: Remove_def touches_def AList.delete_conv' split: option.splits node.splits if_splits)

lemma Remove_gone: "Remove w name = (None, w') \<Longrightarrow> map_of (files w') name = None"
  by (auto simp: Remove_def AList.delete_conv' split: option.splits node.splits if_splits)

lemma touches_overrideImmutable:
  "overrideImmutable st name = (r, st') \<Longrightarrow> touches st' st {name}"
  unfolding overrideImmutable_def
  by (auto split: option.splits prod.splits sum.splits if_splits
      dest!: files_Stat files_Open simp: touches_def immutable_Unset_def map_of_setFlag_other)

lemma overrideImmutable_error_files:
  "overrideImmutable st name = (Some e, st') \<Longrightarrow> files st' = files st"
  unfolding overrideImmutable_def
  by (auto split: option.splits prod.splits sum.splits if_splits dest!: files_Stat files_Open)

text \<open>One round of the inner loop, unfolded.\<close>

lemma cleanPartials_Cons_cases:
  assumes "cleanPartials parse pfx entry (p # ps) st = (r, st')"
  obtains
    (parse_failed) e where "parse (Join (Join pfx entry) p) = Inl e"
      "r = Some (ParseTilePathFailed (Join (Join pfx entry) p) e)" "st' = st"
  | (not_partial) t where "parse (Join (Join pfx entry) p) = Inr t" "tileW t = TileWidth"
      "r = Some (NotAPartialTile (Join (Join pfx entry) p))" "st' = st"
  | (override_failed) t e where "parse (Join (Join pfx entry) p) = Inr t" "tileW t \<noteq> TileWidth"
      "overrideImmutable st (Join (Join pfx entry) p) = (Some e, st')"
      "r = Some (OverrideImmutableFailed (Join (Join pfx entry) p) e)"
  | (stopped) t st1 where "parse (Join (Join pfx entry) p) = Inr t" "tileW t \<noteq> TileWidth"
      "overrideImmutable st (Join (Join pfx entry) p) = (None, st1)"
      "r \<noteq> None" "touches st' st1 {Join (Join pfx entry) p}"
  | (removed) t st1 st3 where "parse (Join (Join pfx entry) p) = Inr t" "tileW t \<noteq> TileWidth"
      "overrideImmutable st (Join (Join pfx entry) p) = (None, st1)"
      "touches st3 st1 {Join (Join pfx entry) p}"
      "cleanPartials parse pfx entry ps st3 = (r, st')"
      "map_of (files st3) (Join (Join pfx entry) p) = None"
proof (cases "parse (Join (Join pfx entry) p)")
  case (Inl e)
  with assms parse_failed show ?thesis by (simp add: Let_def)
next
  case (Inr t)
  show ?thesis
  proof (cases "tileW t = TileWidth")
    case True
    with Inr assms not_partial show ?thesis by (simp add: Let_def)
  next
    case False
    obtain r1 st1 where o: "overrideImmutable st (Join (Join pfx entry) p) = (r1, st1)" by force
    show ?thesis
    proof (cases r1)
      case (Some e)
      with Inr False o assms override_failed show ?thesis by (simp add: Let_def)
    next
      case None
      obtain r2 st2 where i: "Info (st1\<lparr>removedFiles := removedFiles st1 + 1\<rparr>) (Join (Join pfx entry) p) = (r2, st2)" by force
      then have f2: "files st2 = files st1" by (auto dest: files_Info)
      show ?thesis
      proof (cases r2)
        case (Inl e)
        with Inr False o None i assms have "r = Some e" "st' = st2" by (auto simp: Let_def)
        with f2 stopped [OF Inr False] o None show ?thesis by (simp add: touches_def)
      next
        case R: (Inr n)
        obtain r3 st3 where rm: "Remove (st2\<lparr>removedBytes := removedBytes st2 + n\<rparr>) (Join (Join pfx entry) p) = (r3, st3)" by force
        from touches_Remove [OF this] f2 have t3: "touches st3 st1 {Join (Join pfx entry) p}"
          by (simp add: touches_def)
        show ?thesis
        proof (cases r3)
          case (Some e)
          with Inr False o None i R rm assms have "r = Some e" "st' = st3" by (auto simp: Let_def)
          with t3 stopped [OF Inr False] o None show ?thesis by simp
        next
          case N3: None
          with Inr False o None i R rm assms
          have "cleanPartials parse pfx entry ps st3 = (r, st')" by (auto simp: Let_def)
          moreover from rm N3 have "map_of (files st3) (Join (Join pfx entry) p) = None"
            by (auto dest: Remove_gone)
          ultimately show ?thesis using removed [OF Inr False _ t3] o None by simp
        qed
      qed
    qed
  qed
qed



text \<open>One entry that is not a traversal directory, unfolded.\<close>

lemma cleanGroup_cases:
  assumes "cleanGroup parse pfx logsize names entry st = (r, st')"
  obtains
    (no_suffix) "CutSuffix entry ''.p'' = None" "r = None" "st' = st"
  | (no_sibling) full where "CutSuffix entry ''.p'' = Some full" "full \<notin> set names" "r = None" "st' = st"
  | (parse_failed) full e where "CutSuffix entry ''.p'' = Some full" "full \<in> set names"
      "parse (TrimSuffix (Join pfx entry) ''.p'') = Inl e"
      "r = Some (ParseTilePathFailed (Join pfx entry) e)" "st' = st"
  | (panic) full t e where "CutSuffix entry ''.p'' = Some full" "full \<in> set names"
      "parse (TrimSuffix (Join pfx entry) ''.p'') = Inr t" "atRightEdge logsize t = Inl e"
      "r = Some e" "st' = st"
  | (edge) full t where "CutSuffix entry ''.p'' = Some full" "full \<in> set names"
      "parse (TrimSuffix (Join pfx entry) ''.p'') = Inr t" "atRightEdge logsize t = Inr True"
      "r = None" "st' = st"
  | (unreadable) full t e where "CutSuffix entry ''.p'' = Some full" "full \<in> set names"
      "parse (TrimSuffix (Join pfx entry) ''.p'') = Inr t" "atRightEdge logsize t = Inr False"
      "ReadDir st (Join pfx entry) = (Inl e, st')" "r = Some e"
  | (partial_failed) full t ps st1 e where "CutSuffix entry ''.p'' = Some full" "full \<in> set names"
      "parse (TrimSuffix (Join pfx entry) ''.p'') = Inr t" "atRightEdge logsize t = Inr False"
      "ReadDir st (Join pfx entry) = (Inr ps, st1)"
      "cleanPartials parse pfx entry ps st1 = (Some e, st')" "r = Some e"
  | (emptied) full t ps st1 st2 where "CutSuffix entry ''.p'' = Some full" "full \<in> set names"
      "parse (TrimSuffix (Join pfx entry) ''.p'') = Inr t" "atRightEdge logsize t = Inr False"
      "ReadDir st (Join pfx entry) = (Inr ps, st1)"
      "cleanPartials parse pfx entry ps st1 = (None, st2)"
      "touches st' st2 {Join pfx entry}"
proof (cases "CutSuffix entry ''.p''")
  case None
  with assms no_suffix show ?thesis by (simp add: cleanGroup_def)
next
  case (Some full)
  show ?thesis
  proof (cases "full \<in> set names")
    case False
    with Some assms no_sibling show ?thesis by (simp add: cleanGroup_def)
  next
    case True
    show ?thesis
    proof (cases "parse (TrimSuffix (Join pfx entry) ''.p'')")
      case (Inl e)
      with Some True assms parse_failed show ?thesis by (simp add: cleanGroup_def)
    next
      case (Inr t)
      show ?thesis
      proof (cases "atRightEdge logsize t")
        case (Inl e)
        with Some True Inr assms panic show ?thesis by (simp add: cleanGroup_def)
      next
        case E: (Inr b)
        show ?thesis
        proof (cases b)
          case True
          with Some \<open>full \<in> set names\<close> Inr E assms edge show ?thesis by (simp add: cleanGroup_def)
        next
          case False
          obtain rd st1 where rd: "ReadDir st (Join pfx entry) = (rd, st1)" by force
          show ?thesis
          proof (cases rd)
            case (Inl e)
            with Some True Inr E False rd assms unreadable show ?thesis
              by (simp add: cleanGroup_def)
          next
            case L: (Inr ps)
            obtain r2 st2 where cp: "cleanPartials parse pfx entry ps st1 = (r2, st2)" by force
            show ?thesis
            proof (cases r2)
              case (Some e)
              with \<open>CutSuffix entry ''.p'' = Some full\<close> True Inr E False rd L cp assms
              have "r = Some e" "st' = st2" by (simp_all add: cleanGroup_def)
              with partial_failed [OF \<open>CutSuffix entry ''.p'' = Some full\<close> True Inr _ _ _] E False rd L cp Some
              show ?thesis by simp
            next
              case None
              obtain r3 st3 where i: "Info (st2\<lparr>removedDirs := removedDirs st2 + 1\<rparr>) (Join pfx entry) = (r3, st3)" by force
              then have f3: "files st3 = files st2" by (auto dest: files_Info)
              have "touches st' st2 {Join pfx entry}"
              proof (cases r3)
                case (Inl e)
                with Some True Inr E False rd L cp None i assms have "st' = st3"
                  by (simp add: cleanGroup_def)
                with f3 show ?thesis by (simp add: touches_def)
              next
                case (Inr n)
                with Some True \<open>parse _ = Inr t\<close> E False rd L cp None i assms
                have "Remove (st3\<lparr>removedBytes := removedBytes st3 + n\<rparr>) (Join pfx entry) = (r, st')"
                  by (simp add: cleanGroup_def)
                from touches_Remove [OF this] f3 show ?thesis by (simp add: touches_def)
              qed
              with emptied [OF Some True Inr _ _ _] E False rd L cp None show ?thesis by simp
            qed
          qed
        qed
      qed
    qed
  qed
qed

lemma under_self [simp]: "under p p"
  by (simp add: under_def)

lemma under_Join [simp]: "under p (Join p q)"
  by (simp add: under_def Join_def)











section \<open>The arithmetic of the edge gate\<close>








section \<open>The third and fourth gates in the inner loop\<close>

lemma Join_inject [simp]: "Join a p = Join a q \<longleftrightarrow> p = q"
  by (simp add: Join_def)


text \<open>
  The claim's fourth gate, stated on the filesystem: the name has a \<open>.p/\<close>, what follows
  its first one reads as an integer, and what precedes it is an existing, non-empty file.
\<close>

definition existenceGate :: "filesystem \<Rightarrow> string \<Rightarrow> bool" where
  "existenceGate fs name =
     (case Cut name ''.p/'' of
        None \<Rightarrow> False
      | Some (full, width) \<Rightarrow>
          Atoi width \<noteq> None \<and>
          (case map_of fs full of None \<Rightarrow> False | Some fi \<Rightarrow> \<not> IsDir fi \<and> Size fi \<noteq> 0))"

lemma overrideImmutable_gate:
  "overrideImmutable st name = (None, st') \<Longrightarrow> existenceGate (files st) name"
proof -
  assume a: "overrideImmutable st name = (None, st')"
  then obtain full width where c: "Cut name ''.p/'' = Some (full, width)"
    by (cases "Cut name ''.p/''") (auto simp: overrideImmutable_def)
  with a obtain n where n: "Atoi width = Some n"
    by (cases "Atoi width") (auto simp: overrideImmutable_def)
  obtain rs st1 where s: "Stat st full = (rs, st1)" by force
  with a c n obtain fi where fi: "rs = Inr fi" "\<not> IsDir fi" "Size fi \<noteq> 0"
    by (cases rs) (auto simp: overrideImmutable_def split: if_splits)
  from s fi have "map_of (files st) full = Some fi"
    by (auto simp: Stat_def split: option.splits)
  with c n fi show ?thesis by (simp add: existenceGate_def)
qed

lemma overrideImmutable_refuses:
  assumes "\<not> existenceGate (files st) name"
  shows "\<exists>e st1. overrideImmutable st name = (Some e, st1) \<and> files st1 = files st"
proof -
  obtain r st1 where o: "overrideImmutable st name = (r, st1)" by force
  with assms overrideImmutable_gate obtain e where "r = Some e" by (cases r) auto
  with o overrideImmutable_error_files show ?thesis by blast
qed

lemma existenceGate_after_removal:
  assumes "\<not> existenceGate fs name" and "\<forall>k. k \<noteq> q \<longrightarrow> map_of fs' k = map_of fs k" and "map_of fs' q = None"
  shows "\<not> existenceGate fs' name"
proof (cases "Cut name ''.p/''")
  case None
  then show ?thesis by (simp add: existenceGate_def)
next
  case (Some fw)
  obtain full width where fw: "fw = (full, width)" by force
  show ?thesis
  proof (cases "full = q")
    case True
    with Some fw assms(3) show ?thesis by (simp add: existenceGate_def)
  next
    case False
    with assms(2) have "map_of fs' full = map_of fs full" by simp
    with Some fw assms(1) show ?thesis by (simp add: existenceGate_def)
  qed
qed

lemma cleanPartials_gate:
  "p \<in> set ps \<Longrightarrow> \<not> existenceGate (files st) (Join (Join pfx g) p) \<Longrightarrow>
     cleanPartials parse pfx g ps st = (r, st') \<Longrightarrow>
     r \<noteq> None \<and> map_of (files st') (Join (Join pfx g) p) = map_of (files st) (Join (Join pfx g) p)"
proof (induction ps arbitrary: st)
  case Nil
  then show ?case by simp
next
  case (Cons q ps)
  show ?case
  proof (cases "q = p")
    case True
    from Cons.prems(3) show ?thesis
    proof (cases rule: cleanPartials_Cons_cases)
      case (override_failed t e)
      from overrideImmutable_error_files [OF override_failed(3)] override_failed(4) True
      show ?thesis by simp
    next
      case (stopped t st1)
      from overrideImmutable_gate [OF stopped(3)] True Cons.prems(2) show ?thesis by simp
    next
      case (removed t st1 st3)
      from overrideImmutable_gate [OF removed(3)] True Cons.prems(2) show ?thesis by simp
    next
      case (parse_failed e)
      then show ?thesis by simp
    next
      case (not_partial t')
      then show ?thesis by simp
    qed
  next
    case False
    then have p: "p \<in> set ps" using Cons.prems(1) by simp
    have ne: "Join (Join pfx g) p \<notin> {Join (Join pfx g) q}" using False by simp
    from Cons.prems(3) show ?thesis
    proof (cases rule: cleanPartials_Cons_cases)
      case (override_failed t' e)
      from overrideImmutable_error_files [OF override_failed(3)] override_failed(4)
      show ?thesis by simp
    next
      case (stopped t' st1)
      from touches_trans [OF stopped(5) touches_overrideImmutable [OF stopped(3)]] ne stopped(4)
      show ?thesis by (simp add: touches_def)
    next
      case (parse_failed e)
      then show ?thesis by simp
    next
      case (not_partial t')
      then show ?thesis by simp
    next
      case (removed t' st1 st3)
      have t: "touches st3 st {Join (Join pfx g) q}"
        using touches_trans [OF removed(4) touches_overrideImmutable [OF removed(3)]] .
      then have same: "map_of (files st3) (Join (Join pfx g) p) = map_of (files st) (Join (Join pfx g) p)"
        using ne by (simp add: touches_def)
      have "\<forall>k. k \<noteq> Join (Join pfx g) q \<longrightarrow> map_of (files st3) k = map_of (files st) k"
        using t by (simp add: touches_def)
      with Cons.prems(2) have "\<not> existenceGate (files st3) (Join (Join pfx g) p)"
        using removed(6) by (rule existenceGate_after_removal)
      from Cons.IH [OF p this removed(5)] same show ?thesis by simp
    qed
  qed
qed

section \<open>Entries the walk passes over\<close>










section \<open>Properties of the S3 backend\<close>

definition immutableOpts :: "UploadOptions option" where
  "immutableOpts = Some \<lparr>ContentType = [], Compressed = False, Immutable = True\<rparr>"

definition oneObject :: "byte list \<Rightarrow> S3State" where
  "oneObject bs =
     \<lparr>objects = [(''logs'', ''prod/tile/0/000'') \<mapsto>
          \<lparr>Body = bs, ContentLength = int (length bs), ContentEncoding = None,
           ObjectContentType = ''application/octet-stream'',
           CacheControl = Some ''public, max-age=604800, immutable''\<rparr>],
      hedgeRequests = 0, hedgeWins = 0, uploadSize = []\<rparr>"

definition quietRace :: Race where
  "quietRace = \<lparr>primary = None, hedge = None, hedgeFirst = False\<rparr>"

lemma Upload_S3_result:
  "fst (Upload_S3 s key data opts race st) =
     (case (if hedge race \<noteq> None \<and> hedgeFirst race then the (hedge race) else primary race) of
        Some e \<Rightarrow> Some (S3UploadFailed key e)
      | None \<Rightarrow> None)"
  by (simp add: Upload_S3_def Let_def split: option.splits)

lemma snd_case_option: "snd (case x of Some e \<Rightarrow> (f e, y) | None \<Rightarrow> (g, y)) = y"
  by (cases x) simp_all

lemma objects_PutObject_ok:
  "objects (PutObject b k obj None s) (b, k) = Some obj"
  by (simp add: PutObject_def)

lemma objects_PutObject_keep:
  "objects s (b, k) = Some obj \<Longrightarrow> objects (PutObject b k obj outcome s) (b, k) = Some obj"
  by (cases outcome) (simp_all add: PutObject_def)

text \<open>
  C5, as the claim states it, fails: the key holds the byte 1, an immutable \<open>Upload\<close> of
  the byte 2 returns \<open>nil\<close>, and the key then holds the byte 2.
\<close>

theorem s3_immutable_upload_overwrites:
  "map_option Body (objects (oneObject [1]) (''logs'', ''prod/tile/0/000'')) = Some [1] \<and>
   fst (Upload_S3 \<lparr>bucket = ''logs'', keyPrefix = ''prod/''\<rparr> ''tile/0/000'' [2] immutableOpts quietRace
          (oneObject [1])) = None \<and>
   map_option Body (objects (snd (Upload_S3 \<lparr>bucket = ''logs'', keyPrefix = ''prod/''\<rparr> ''tile/0/000'' [2]
          immutableOpts quietRace (oneObject [1]))) (''logs'', ''prod/tile/0/000'')) = Some [2]"
  by (simp add: Upload_S3_def oneObject_def immutableOpts_def quietRace_def PutObject_def
      wantsImmutable_def Let_def)

text \<open>
  C5, amended.  With \<open>Immutable\<close> set, \<open>Upload\<close> only adds the immutable
  \<open>Cache-Control\<close> header to an unconditional \<open>PutObject\<close>: its result does not
  depend on what the bucket holds, and whenever it returns \<open>nil\<close> the key holds exactly
  the uploaded data under that header.
\<close>

theorem s3_immutable_upload_is_plain_put:
  "fst (Upload_S3 s key data opts race st) = fst (Upload_S3 s key data opts race st') \<and>
   (wantsImmutable opts \<and> fst (Upload_S3 s key data opts race st) = None \<longrightarrow>
      (\<exists>obj. objects (snd (Upload_S3 s key data opts race st)) (bucket s, keyPrefix s @ key) = Some obj \<and>
         Body obj = data \<and> CacheControl obj = Some ''public, max-age=604800, immutable''))"
proof (intro conjI impI)
  show "fst (Upload_S3 s key data opts race st) = fst (Upload_S3 s key data opts race st')"
    by (simp only: Upload_S3_result)
next
  assume a: "wantsImmutable opts \<and> fst (Upload_S3 s key data opts race st) = None"
  define obj where "obj = \<lparr>Body = data, ContentLength = int (length data),
      ContentEncoding = (case opts of Some o' \<Rightarrow> if Compressed o' then Some ''gzip'' else None | None \<Rightarrow> None),
      ObjectContentType = (case opts of
               Some o' \<Rightarrow> if ContentType o' \<noteq> [] then ContentType o' else ''application/octet-stream''
             | None \<Rightarrow> ''application/octet-stream''),
      CacheControl = Some ''public, max-age=604800, immutable''\<rparr>"
  define st1 where "st1 = (case hedge race of
                   None \<Rightarrow> st
                 | Some outcome \<Rightarrow>
                     PutObject (bucket s) (keyPrefix s @ key) obj outcome
                       (st\<lparr>hedgeRequests := hedgeRequests st + 1\<rparr>))"
  define st2 where "st2 = PutObject (bucket s) (keyPrefix s @ key) obj (primary race) st1"
  have fin: "objects (snd (Upload_S3 s key data opts race st)) = objects st2"
    using a unfolding Upload_S3_def Let_def snd_case_option st2_def st1_def obj_def by simp
  from a have "(case (if hedge race \<noteq> None \<and> hedgeFirst race then the (hedge race) else primary race) of
        Some e \<Rightarrow> Some (S3UploadFailed key e) | None \<Rightarrow> None) = None"
    by (simp only: Upload_S3_result)
  then have won: "(if hedge race \<noteq> None \<and> hedgeFirst race then the (hedge race) else primary race) = None"
    by (cases "if hedge race \<noteq> None \<and> hedgeFirst race then the (hedge race) else primary race") simp_all
  have "objects st2 (bucket s, keyPrefix s @ key) = Some obj"
  proof (cases "hedge race \<noteq> None \<and> hedgeFirst race")
    case True
    with won have "hedge race = Some None" by auto
    then have "objects st1 (bucket s, keyPrefix s @ key) = Some obj"
      by (simp add: st1_def objects_PutObject_ok)
    then show ?thesis unfolding st2_def by (rule objects_PutObject_keep)
  next
    case False
    with won have "primary race = None" by (simp split: if_splits)
    then show ?thesis by (simp add: st2_def objects_PutObject_ok)
  qed
  with fin show "\<exists>obj. objects (snd (Upload_S3 s key data opts race st)) (bucket s, keyPrefix s @ key) = Some obj \<and>
         Body obj = data \<and> CacheControl obj = Some ''public, max-age=604800, immutable''"
    by (simp add: obj_def)
qed

theorem s3_immutable_upload_is_plain_put_witness:
  "wantsImmutable immutableOpts \<and>
   fst (Upload_S3 \<lparr>bucket = ''logs'', keyPrefix = ''prod/''\<rparr> ''tile/0/000'' [2] immutableOpts quietRace
          (oneObject [1])) = None \<and>
   (\<exists>obj. objects (snd (Upload_S3 \<lparr>bucket = ''logs'', keyPrefix = ''prod/''\<rparr> ''tile/0/000'' [2]
          immutableOpts quietRace (oneObject [1]))) (''logs'', ''prod/'' @ ''tile/0/000'') = Some obj \<and>
      Body obj = [2] \<and> CacheControl obj = Some ''public, max-age=604800, immutable'')"
proof -
  have h1: "wantsImmutable immutableOpts" by (simp add: wantsImmutable_def immutableOpts_def)
  have h2: "fst (Upload_S3 \<lparr>bucket = ''logs'', keyPrefix = ''prod/''\<rparr> ''tile/0/000'' [2] immutableOpts quietRace
          (oneObject [1])) = None"
    by (simp add: Upload_S3_result quietRace_def)
  from s3_immutable_upload_is_plain_put [of "\<lparr>bucket = ''logs'', keyPrefix = ''prod/''\<rparr>" "''tile/0/000''" "[2]"
      immutableOpts quietRace "oneObject [1]" "oneObject [1]"] h1 h2
  show ?thesis by simp
qed


subsection \<open>The hedge request\<close>

lemma hedgeRequests_PutObject [simp]: "hedgeRequests (PutObject b k obj outcome st) = hedgeRequests st"
  by (cases outcome) (simp_all add: PutObject_def)

lemma hedgeWins_PutObject [simp]: "hedgeWins (PutObject b k obj outcome st) = hedgeWins st"
  by (cases outcome) (simp_all add: PutObject_def)









section \<open>The safety gates of the compactor\<close>





text \<open>A parser for the instances: the level-0 tiles \<open>000\<close> and \<open>003\<close> and their partials.\<close>

definition level0Parse :: "string \<Rightarrow> error + Tile" where
  "level0Parse p =
     (if p = ''tile/0/000'' then Inr \<lparr>tileH = 8, tileL = 0, tileN = 0, tileW = 256\<rparr>
      else if p = ''tile/0/003'' then Inr \<lparr>tileH = 8, tileL = 0, tileN = 3, tileW = 256\<rparr>
      else if p = ''tile/0/000.p/5'' then Inr \<lparr>tileH = 8, tileL = 0, tileN = 0, tileW = 5\<rparr>
      else if p = ''tile/0/000.p/256'' then Inr \<lparr>tileH = 8, tileL = 0, tileN = 0, tileW = 256\<rparr>
      else if p = ''tile/0/003.p/232'' then Inr \<lparr>tileH = 8, tileL = 0, tileN = 3, tileW = 232\<rparr>
      else Inl (MalformedTilePath p))"


















lemma cleanGroup_gate:
  assumes rd: "ReadDir st (Join pfx g) = (Inr ps, listed)" and p: "p \<in> set ps"
    and gate: "\<not> existenceGate (files st) (Join (Join pfx g) p)"
    and c: "cleanGroup parse pfx logsize names g st = (r, st')"
  shows "(r = None \<longrightarrow> st' = st) \<and>
         map_of (files st') (Join (Join pfx g) p) = map_of (files st) (Join (Join pfx g) p)"
  using c
proof (cases rule: cleanGroup_cases)
  case (unreadable full t e)
  with rd show ?thesis by simp
next
  case (partial_failed full t ps' st1 e)
  with rd have eq: "ps' = ps" "st1 = listed" by simp_all
  have f: "files listed = files st" using rd by (rule files_ReadDir)
  from gate f have ng: "\<not> existenceGate (files listed) (Join (Join pfx g) p)" by simp
  from partial_failed(6) eq have "cleanPartials parse pfx g ps listed = (Some e, st')" by simp
  from cleanPartials_gate [OF p ng this] f partial_failed(7) show ?thesis by simp
next
  case (emptied full t ps' st1 st2)
  with rd have eq: "ps' = ps" "st1 = listed" by simp_all
  have f: "files listed = files st" using rd by (rule files_ReadDir)
  from gate f have ng: "\<not> existenceGate (files listed) (Join (Join pfx g) p)" by simp
  from emptied(6) eq have "cleanPartials parse pfx g ps listed = (None, st2)" by simp
  from cleanPartials_gate [OF p ng this] show ?thesis by simp
qed simp_all

text \<open>A group whose full tile is there but empty.\<close>

definition emptyFullTree :: compactor where
  "emptyFullTree =
     \<lparr>files = [(''tile'', Dir 4096), (''tile/0'', Dir 4096),
               (''tile/0/000'', File [] True), (''tile/0/000.p'', Dir 4096),
               (''tile/0/000.p/5'', File [7] True)],
      trace = [], removedFiles = 0, removedDirs = 0, removedBytes = 0\<rparr>"

lemma emptyFullTree_listing:
  "ReadDir emptyFullTree (Join ''tile/0'' ''000.p'') = (Inr [''5''], access (OpReadDir ''tile/0/000.p'') emptyFullTree)"
  by code_simp

lemma emptyFullTree_gate:
  "\<not> existenceGate (files emptyFullTree) (Join (Join ''tile/0'' ''000.p'') ''5'')"
  by code_simp

text \<open>
  C3.  \<open>overrideImmutable\<close> returns \<open>nil\<close> only if the name has a \<open>.p/\<close>, what
  follows it reads as an integer, and a status call on what precedes it finds a file, not a
  directory, of non-zero size.  Where this fails it returns an error and changes no file;
  the inner loop over the listing of a group that holds such a partial returns an error with
  the partial still there; and so does the handling of the group, unless an earlier gate
  passes over the group and nothing changes at all.
\<close>

theorem independent_existence_gate:
  "(overrideImmutable st name = (None, st'') \<longrightarrow> existenceGate (files st) name) \<and>
   (\<not> existenceGate (files st) name \<longrightarrow>
      (\<exists>e st1. overrideImmutable st name = (Some e, st1) \<and> files st1 = files st)) \<and>
   (pfx \<noteq> ''.'' \<and> ReadDir st (Join pfx g) = (Inr ps, listed) \<and> p \<in> set ps \<and>
    \<not> existenceGate (files st) (Join (Join pfx g) p) \<longrightarrow>
      fst (cleanPartials parse pfx g ps listed) \<noteq> None \<and>
      map_of (files (snd (cleanPartials parse pfx g ps listed))) (Join (Join pfx g) p) =
        map_of (files st) (Join (Join pfx g) p) \<and>
      (fst (cleanGroup parse pfx logsize names g st) = None \<longrightarrow>
         snd (cleanGroup parse pfx logsize names g st) = st) \<and>
      map_of (files (snd (cleanGroup parse pfx logsize names g st))) (Join (Join pfx g) p) =
        map_of (files st) (Join (Join pfx g) p))"
proof (intro conjI impI)
  assume "overrideImmutable st name = (None, st'')"
  then show "existenceGate (files st) name" by (rule overrideImmutable_gate)
next
  assume "\<not> existenceGate (files st) name"
  then show "\<exists>e st1. overrideImmutable st name = (Some e, st1) \<and> files st1 = files st"
    by (rule overrideImmutable_refuses)
next
  assume a: "pfx \<noteq> ''.'' \<and> ReadDir st (Join pfx g) = (Inr ps, listed) \<and> p \<in> set ps \<and>
    \<not> existenceGate (files st) (Join (Join pfx g) p)"
  then have f: "files listed = files st" by (auto dest: files_ReadDir)
  obtain r st' where c: "cleanPartials parse pfx g ps listed = (r, st')" by force
  from a f have "p \<in> set ps" and "\<not> existenceGate (files listed) (Join (Join pfx g) p)" by simp_all
  from cleanPartials_gate [OF this c] c f
  show "fst (cleanPartials parse pfx g ps listed) \<noteq> None"
    and "map_of (files (snd (cleanPartials parse pfx g ps listed))) (Join (Join pfx g) p) =
        map_of (files st) (Join (Join pfx g) p)" by simp_all
next
  assume a: "pfx \<noteq> ''.'' \<and> ReadDir st (Join pfx g) = (Inr ps, listed) \<and> p \<in> set ps \<and>
    \<not> existenceGate (files st) (Join (Join pfx g) p)"
  obtain r st' where c: "cleanGroup parse pfx logsize names g st = (r, st')" by force
  from a have "(r = None \<longrightarrow> st' = st) \<and>
         map_of (files st') (Join (Join pfx g) p) = map_of (files st) (Join (Join pfx g) p)"
    using c by (intro cleanGroup_gate [where ps = ps and listed = listed]) simp_all
  with c show "map_of (files (snd (cleanGroup parse pfx logsize names g st))) (Join (Join pfx g) p) =
        map_of (files st) (Join (Join pfx g) p)" by simp
  { assume "fst (cleanGroup parse pfx logsize names g st) = None"
    with c \<open>(r = None \<longrightarrow> st' = st) \<and> _\<close>
    show "snd (cleanGroup parse pfx logsize names g st) = st" by simp }
qed

theorem independent_existence_gate_witness:
  "\<not> existenceGate (files emptyFullTree) (Join (Join ''tile/0'' ''000.p'') ''5'') \<and>
   (\<exists>e st1. overrideImmutable emptyFullTree (Join (Join ''tile/0'' ''000.p'') ''5'') = (Some e, st1) \<and>
      files st1 = files emptyFullTree) \<and>
   ''tile/0'' \<noteq> ''.'' \<and> ''5'' \<in> set [''5''] \<and>
   ReadDir emptyFullTree (Join ''tile/0'' ''000.p'') = (Inr [''5''], access (OpReadDir ''tile/0/000.p'') emptyFullTree) \<and>
   fst (cleanPartials level0Parse ''tile/0'' ''000.p'' [''5''] (access (OpReadDir ''tile/0/000.p'') emptyFullTree)) \<noteq> None \<and>
   map_of (files (snd (cleanGroup level0Parse ''tile/0'' 1000 [''000'', ''000.p''] ''000.p'' emptyFullTree)))
       (Join (Join ''tile/0'' ''000.p'') ''5'') =
     map_of (files emptyFullTree) (Join (Join ''tile/0'' ''000.p'') ''5'')"
proof -
  have m: "''5'' \<in> set [''5'']" and n: "''tile/0'' \<noteq> ''.''" by simp_all
  from independent_existence_gate [where st = emptyFullTree and name = "Join (Join ''tile/0'' ''000.p'') ''5''"
      and p = "''5''" and ps = "[''5'']" and pfx = "''tile/0''" and g = "''000.p''" and parse = level0Parse
      and listed = "access (OpReadDir ''tile/0/000.p'') emptyFullTree" and logsize = 1000
      and names = "[''000'', ''000.p'']"]
    emptyFullTree_gate emptyFullTree_listing m n
  show ?thesis by simp
qed

section \<open>Failures in the command\<close>




lemma files_enter [simp]: "files (enter p fs) = fs"
  by (simp add: enter_def)

lemma exitCode_leave [simp]: "exitCode (leave p st) = exitCode p"
  by (simp add: leave_def)














end
